theory Spec2Isabelle
  imports Main "HOL-Library.Word" "HOL-Library.Sublist" "HOL-Library.Multiset"
begin

section \<open>Values of the JavaScript platform\<close>

text \<open>
  A JavaScript string is a sequence of 16-bit code units. String literals of the source
  are written \<open>js ''...''\<close>.
\<close>

type_synonym code_unit = "16 word"

type_synonym jsstring = "code_unit list"

definition js :: "string \<Rightarrow> jsstring" where
  "js s = map of_char s"

text \<open>
  \<^verbatim>\<open>String.prototype.trim\<close> removes the code units of the ECMAScript productions
  WhiteSpace and LineTerminator from both ends: TAB, LF, VT, FF, CR, SP, NBSP, the
  Unicode space separators, LS, PS and the byte order mark.
\<close>

definition isWhiteSpace :: "code_unit \<Rightarrow> bool" where
  "isWhiteSpace c =
     (c \<in> set [0x0009, 0x000A, 0x000B, 0x000C, 0x000D, 0x0020, 0x00A0, 0x1680,
                0x2000, 0x2001, 0x2002, 0x2003, 0x2004, 0x2005, 0x2006, 0x2007,
                0x2008, 0x2009, 0x200A, 0x2028, 0x2029, 0x202F, 0x205F, 0x3000,
                0xFEFF])"

definition trim :: "jsstring \<Rightarrow> jsstring" where
  "trim s = rev (dropWhile isWhiteSpace (rev (dropWhile isWhiteSpace s)))"

text \<open>
  A thrown exception or a rejected promise is the left summand of a result.
  \<open>try_catch\<close> is \<^verbatim>\<open>try { body } catch (e) { handler }\<close>.
\<close>

datatype error = SyntaxError | TypeError | RequestFailed

definition try_catch :: "error + 'a \<Rightarrow> (error \<Rightarrow> error + 'a) \<Rightarrow> error + 'a" where
  "try_catch body handler = (case body of Inl e \<Rightarrow> handler e | Inr v \<Rightarrow> Inr v)"

text \<open>
  The values \<^verbatim>\<open>JSON.parse\<close> produces. The source passes them on under type
  assertions that nothing checks at run time (\<^verbatim>\<open>as string[]\<close>, the return type
  \<^verbatim>\<open>Task[]\<close>), so the functions that return them are modelled at this type.
  Numbers are IEEE doubles and are left abstract. \<^verbatim>\<open>JSON.parse\<close> itself belongs to
  the platform and is a parameter \<open>JSON_parse\<close> of the functions that call it.
\<close>

typedecl js_number

datatype json =
    JNull
  | JBool bool
  | JNum js_number
  | JStr jsstring
  | JArr "json list"
  | JObj "(jsstring \<times> json) list"

text \<open>An array of strings, as the declared type \<^verbatim>\<open>string[]\<close> has it.\<close>

definition string_array :: "jsstring list \<Rightarrow> json" where
  "string_array xs = JArr (map JStr xs)"

section \<open>types.ts\<close>

datatype Priority = HIGH | MEDIUM | LOW

text \<open>The string value of each member of the enum.\<close>

fun Priority_value :: "Priority \<Rightarrow> jsstring" where
  "Priority_value HIGH = js ''High''"
| "Priority_value MEDIUM = js ''Medium''"
| "Priority_value LOW = js ''Low''"

record Task =
  id' :: jsstring
  text' :: jsstring
  completed :: bool
  priority :: Priority
  createdAt :: int

record StatsData =
  name :: jsstring
  value' :: nat

section \<open>pranavService.ts\<close>

text \<open>
  The generative model is an external collaborator: \<open>ai\<close> maps a request to the outcome
  of \<^verbatim>\<open>ai.models.generateContent\<close>, which either fails (\<open>Inl\<close>) or answers with a
  response whose \<^verbatim>\<open>text\<close> may be undefined (\<open>None\<close>). The three requests of the
  source differ in their prompt template; a request is the template with the value
  that fills its hole.
\<close>

datatype request =
    BreakDownPrompt jsstring
  | PriorityPrompt jsstring
  | MotivationPrompt nat

type_synonym response_text = "jsstring option"

type_synonym model = "request \<Rightarrow> error + response_text"

definition breakDownTask :: "model \<Rightarrow> (jsstring \<Rightarrow> error + json) \<Rightarrow> jsstring \<Rightarrow> error + json" where
  "breakDownTask ai JSON_parse taskText =
     try_catch
       (case ai (BreakDownPrompt taskText) of
          Inl e \<Rightarrow> Inl e
        | Inr response \<Rightarrow>
            (case response of
               None \<Rightarrow> Inr (JArr [])
             | Some t \<Rightarrow> if t = [] then Inr (JArr []) else JSON_parse t))
       (\<lambda>e. Inr (JArr []))"

definition suggestPriority :: "model \<Rightarrow> jsstring \<Rightarrow> error + Priority" where
  "suggestPriority ai taskText =
     try_catch
       (case ai (PriorityPrompt taskText) of
          Inl e \<Rightarrow> Inl e
        | Inr response \<Rightarrow>
            (let t = map_option trim response in
             if t = Some (js ''High'') then Inr HIGH
             else if t = Some (js ''Medium'') then Inr MEDIUM
             else Inr LOW))
       (\<lambda>e. Inr MEDIUM)"

definition getMotivation :: "model \<Rightarrow> nat \<Rightarrow> error + jsstring" where
  "getMotivation ai pendingCount =
     try_catch
       (case ai (MotivationPrompt pendingCount) of
          Inl e \<Rightarrow> Inl e
        | Inr response \<Rightarrow>
            (case response of
               None \<Rightarrow> Inr (js ''Keep crushing it! - Pranav AI'')
             | Some t \<Rightarrow> if t = [] then Inr (js ''Keep crushing it! - Pranav AI'') else Inr t))
       (\<lambda>e. Inr (js ''You got this! - Pranav AI''))"

section \<open>App.tsx\<close>

text \<open>
  \<open>localStorage\<close> is a map from keys to stored strings; \<^verbatim>\<open>getItem\<close> of a missing
  key is \<^verbatim>\<open>null\<close>. An empty stored string is falsy, like \<^verbatim>\<open>null\<close>.
\<close>

definition loadTasks :: "(jsstring \<Rightarrow> error + json) \<Rightarrow> (jsstring \<rightharpoonup> jsstring) \<Rightarrow> error + json" where
  "loadTasks JSON_parse localStorage =
     (case localStorage (js ''pranav_tasks'') of
        None \<Rightarrow> Inr (JArr [])
      | Some saved \<Rightarrow>
          if saved \<noteq> [] then
            try_catch (JSON_parse saved) (\<lambda>e. Inr (JArr []))
          else Inr (JArr []))"

datatype Tab = TabAll | TabActive | TabCompleted

text \<open>The state of the component: one field for each \<^verbatim>\<open>useState\<close>.\<close>

record AppState =
  tasks :: "Task list"
  inputText :: jsstring
  isAiLoading :: bool
  motivation :: jsstring
  showStats :: bool
  activeTab :: Tab

definition initialState :: "Task list \<Rightarrow> AppState" where
  "initialState loaded =
     \<lparr>tasks = loaded, inputText = [], isAiLoading = False,
      motivation = js ''Welcome back, Pranav!'', showStats = False, activeTab = TabAll\<rparr>"

text \<open>
  \<^verbatim>\<open>crypto.randomUUID()\<close> and \<^verbatim>\<open>Date.now()\<close> are effects: the values they return
  are parameters. Every member of the enum is a non-empty string, hence truthy, so
  \<^verbatim>\<open>priorityOverride || Priority.LOW\<close> is the override when there is one.
\<close>

definition addTask :: "jsstring \<Rightarrow> int \<Rightarrow> jsstring \<Rightarrow> Priority option \<Rightarrow> AppState \<Rightarrow> AppState" where
  "addTask randomUUID now txt priorityOverride s =
     (if trim txt = [] then s
      else
        let p = (case priorityOverride of None \<Rightarrow> LOW | Some q \<Rightarrow> q);
            newTask = \<lparr>id' = randomUUID, text' = trim txt, completed = False,
                       priority = p, createdAt = now\<rparr>
        in s\<lparr>tasks := newTask # tasks s, inputText := []\<rparr>)"

text \<open>
  \<open>handleSmartAdd\<close> awaits \<open>suggestPriority\<close> and \<open>breakDownTask\<close>; the two awaited
  outcomes are the parameters \<open>suggested\<close> and \<open>broken\<close>, the second at its declared
  type \<^verbatim>\<open>string[]\<close>. The \<open>k\<close>-th call of \<^verbatim>\<open>crypto.randomUUID()\<close> and of
  \<^verbatim>\<open>Date.now()\<close> inside the handler return \<open>randomUUID k\<close> and \<open>now k\<close>. The handler
  is taken as one atomic transition of the state: no other event is interleaved with
  its awaits.
\<close>

definition handleSmartAdd ::
  "(nat \<Rightarrow> jsstring) \<Rightarrow> (nat \<Rightarrow> int) \<Rightarrow> error + Priority \<Rightarrow> error + jsstring list \<Rightarrow> AppState \<Rightarrow> AppState" where
  "handleSmartAdd randomUUID now suggested broken s =
     (if trim (inputText s) = [] then s
      else
        (case suggested of
           Inl e \<Rightarrow> s\<lparr>isAiLoading := False\<rparr>
         | Inr p \<Rightarrow>
             (case broken of
                Inl e \<Rightarrow> s\<lparr>isAiLoading := False\<rparr>
              | Inr subtasks \<Rightarrow>
                  if length subtasks > 0 then
                    let newTasks =
                          map (\<lambda>(k, st). \<lparr>id' = randomUUID k, text' = st, completed = False,
                                           priority = p, createdAt = now k\<rparr>)
                            (enumerate 0 subtasks)
                    in s\<lparr>tasks := newTasks @ tasks s, inputText := [], isAiLoading := False\<rparr>
                  else
                    (addTask (randomUUID 0) (now 0) (inputText s) (Some p) s)
                      \<lparr>inputText := [], isAiLoading := False\<rparr>)))"

text \<open>
  Smart add of a text: the text is typed into the input field (\<^verbatim>\<open>onChange\<close> sets
  \<open>inputText\<close>), then the button runs the handler.
\<close>

definition smartAdd ::
  "(nat \<Rightarrow> jsstring) \<Rightarrow> (nat \<Rightarrow> int) \<Rightarrow> error + Priority \<Rightarrow> error + jsstring list \<Rightarrow> jsstring \<Rightarrow> AppState \<Rightarrow> AppState" where
  "smartAdd randomUUID now suggested broken txt s =
     handleSmartAdd randomUUID now suggested broken (s\<lparr>inputText := txt\<rparr>)"

definition toggleTask :: "jsstring \<Rightarrow> AppState \<Rightarrow> AppState" where
  "toggleTask i s =
     s\<lparr>tasks := map (\<lambda>t. if id' t = i then t\<lparr>completed := \<not> completed t\<rparr> else t) (tasks s)\<rparr>"

definition deleteTask :: "jsstring \<Rightarrow> AppState \<Rightarrow> AppState" where
  "deleteTask i s = s\<lparr>tasks := filter (\<lambda>t. id' t \<noteq> i) (tasks s)\<rparr>"

definition filteredTasks :: "AppState \<Rightarrow> Task list" where
  "filteredTasks s =
     filter (\<lambda>t. if activeTab s = TabActive then \<not> completed t
                 else if activeTab s = TabCompleted then completed t
                 else True)
       (tasks s)"

definition statsData :: "AppState \<Rightarrow> StatsData list" where
  "statsData s =
     (let high = length (filter (\<lambda>t. priority t = HIGH \<and> \<not> completed t) (tasks s));
          medium = length (filter (\<lambda>t. priority t = MEDIUM \<and> \<not> completed t) (tasks s));
          low = length (filter (\<lambda>t. priority t = LOW \<and> \<not> completed t) (tasks s))
      in filter (\<lambda>d. value' d > 0)
           [\<lparr>name = js ''High'', value' = high\<rparr>,
            \<lparr>name = js ''Medium'', value' = medium\<rparr>,
            \<lparr>name = js ''Low'', value' = low\<rparr>])"

section \<open>The operations as events\<close>

text \<open>
  The four operations that change the task list, each with the values of the effects it
  performs. \<open>SmartAdd\<close> carries the text in the input field when the button is
  pressed.
\<close>

datatype event =
    Add jsstring int jsstring "Priority option"
  | SmartAdd "nat \<Rightarrow> jsstring" "nat \<Rightarrow> int" "error + Priority" "error + jsstring list" jsstring
  | Toggle jsstring
  | Delete jsstring

fun step :: "event \<Rightarrow> AppState \<Rightarrow> AppState" where
  "step (Add randomUUID now txt priorityOverride) s = addTask randomUUID now txt priorityOverride s"
| "step (SmartAdd randomUUID now suggested broken txt) s = smartAdd randomUUID now suggested broken txt s"
| "step (Toggle i) s = toggleTask i s"
| "step (Delete i) s = deleteTask i s"

fun run :: "event list \<Rightarrow> AppState \<Rightarrow> AppState" where
  "run [] s = s"
| "run (e # es) s = run es (step e s)"

text \<open>
  The ids an event draws for the tasks it creates, in the order in which the tasks enter
  the list.
\<close>

fun generated :: "event \<Rightarrow> jsstring list" where
  "generated (Add randomUUID now txt priorityOverride) = (if trim txt = [] then [] else [randomUUID])"
| "generated (SmartAdd randomUUID now suggested broken txt) =
     (if trim txt = [] then []
      else
        (case suggested of
           Inl e \<Rightarrow> []
         | Inr p \<Rightarrow>
             (case broken of
                Inl e \<Rightarrow> []
              | Inr subtasks \<Rightarrow>
                  if length subtasks > 0 then map randomUUID [0..<length subtasks]
                  else [randomUUID 0])))"
| "generated (Toggle i) = []"
| "generated (Delete i) = []"

text \<open>
  Fresh ids along a run: the ids each event generates are pairwise distinct and none of
  them is the id of a task in the list at that moment.
\<close>

fun fresh :: "event list \<Rightarrow> AppState \<Rightarrow> bool" where
  "fresh [] s = True"
| "fresh (e # es) s =
     (distinct (generated e) \<and> set (generated e) \<inter> set (map id' (tasks s)) = {}
      \<and> fresh es (step e s))"

text \<open>All ids generated along a run, those of the latest event first.\<close>

fun inserted :: "event list \<Rightarrow> jsstring list" where
  "inserted [] = []"
| "inserted (e # es) = inserted es @ generated e"

section \<open>Sample values\<close>

text \<open>
  Concrete values on which the theorems below are evaluated. \<open>JSON_parse_on_samples\<close>
  tabulates \<^verbatim>\<open>JSON.parse\<close> at the texts used there: an array of two strings, the
  empty object and the empty array; any other text is reported as a syntax error, as
  \<^verbatim>\<open>JSON.parse\<close> does for the text \<^verbatim>\<open>not json\<close>.
\<close>

definition JSON_parse_on_samples :: "jsstring \<Rightarrow> error + json" where
  \<open>JSON_parse_on_samples s =
     (if s = js ''["Book flight","Book hotel"]'' then
        Inr (JArr [JStr (js ''Book flight''), JStr (js ''Book hotel'')])
      else if s = js ''{}'' then Inr (JObj [])
      else if s = js ''[]'' then Inr (JArr [])
      else Inl SyntaxError)\<close>

text \<open>
  A model that answers the break-down request with a JSON array of two strings, the
  priority request with \<^verbatim>\<open>High\<close> followed by a line feed, and the motivation
  request with the empty text; a model whose every call fails; a model that answers
  with a quote.
\<close>

fun ai_sample :: "request \<Rightarrow> error + response_text" where
  \<open>ai_sample (BreakDownPrompt t) = Inr (Some (js ''["Book flight","Book hotel"]''))\<close>
| "ai_sample (PriorityPrompt t) = Inr (Some (js ''High'' @ [0x000A]))"
| "ai_sample (MotivationPrompt n) = Inr (Some [])"

definition ai_failing :: "request \<Rightarrow> error + response_text" where
  "ai_failing r = Inl RequestFailed"

definition ai_quote :: "request \<Rightarrow> error + response_text" where
  "ai_quote r = Inr (Some (js ''Onward! - Pranav AI''))"

definition uuid_sample :: "nat \<Rightarrow> jsstring" where
  "uuid_sample k = js ''id'' @ [0x0030 + of_nat k]"

definition now_sample :: "nat \<Rightarrow> int" where
  "now_sample k = 1000 + int k"

definition storage_sample :: "jsstring \<Rightarrow> jsstring \<rightharpoonup> jsstring" where
  "storage_sample content = [js ''pranav_tasks'' \<mapsto> content]"

definition task_sample :: "jsstring \<Rightarrow> jsstring \<Rightarrow> bool \<Rightarrow> Priority \<Rightarrow> Task" where
  "task_sample i txt c p = \<lparr>id' = i, text' = txt, completed = c, priority = p, createdAt = 1000\<rparr>"

definition tasks_sample :: "Task list" where
  "tasks_sample =
     [task_sample (js ''a'') (js ''Pay rent'') False HIGH,
      task_sample (js ''b'') (js ''Buy milk'') True LOW,
      task_sample (js ''c'') (js ''Call bank'') False HIGH]"

text \<open>A stored list in which two different tasks carry the same id.\<close>

definition tasks_duplicate_id :: "Task list" where
  "tasks_duplicate_id =
     [task_sample (js ''a'') (js ''Pay rent'') False HIGH,
      task_sample (js ''a'') (js ''Buy milk'') False LOW]"

definition events_sample :: "event list" where
  "events_sample =
     [Add (js ''u1'') 999 (js ''Buy milk'') None,
      SmartAdd uuid_sample now_sample (Inr HIGH) (Inr [js ''Book flight'', js ''Book hotel''])
        (js ''Plan trip''),
      Toggle (js ''id0''),
      Delete (js ''u1'')]"

section \<open>Facts about strings\<close>

lemma js_Nil_iff: "js s = [] \<longleftrightarrow> s = []"
  by (simp add: js_def)

lemma trim_High_newline: "trim (js ''High'' @ [0x000A]) = js ''High''"
  by (simp add: trim_def js_def isWhiteSpace_def)

lemma js_High_neq_Medium: "js ''High'' \<noteq> js ''Medium''"
  by (simp add: js_def)

lemma trim_blank3: "trim (js ''   '') = []"
  by (simp add: trim_def js_def isWhiteSpace_def)

lemma trim_Plan_trip_padded: "trim (js '' Plan trip '') = js ''Plan trip''"
  by (simp add: trim_def js_def isWhiteSpace_def)

lemma trim_Plan_trip: "trim (js ''Plan trip'') = js ''Plan trip''"
  by (simp add: trim_def js_def isWhiteSpace_def)

lemma priority_labels_distinct:
  "js ''High'' \<noteq> js ''Medium''" "js ''High'' \<noteq> js ''Low''" "js ''Medium'' \<noteq> js ''Low''"
  by (simp_all add: js_def)

section \<open>The AI assist client\<close>

text \<open>
  C3, as stated, fails: the answer \<^verbatim>\<open>High\<close> followed by a line feed is not the literal
  string \<^verbatim>\<open>High\<close>, and \<open>suggestPriority\<close> returns High for it.
\<close>

theorem suggestPriority_counterexample:
  "suggestPriority ai_sample (js ''Pay rent'') = Inr HIGH
   \<and> js ''High'' @ [0x000A] \<noteq> js ''High''"
  by (simp add: suggestPriority_def try_catch_def trim_High_newline)

text \<open>
  C3 (amended). For every model response, \<open>suggestPriority\<close> returns High exactly when
  the response text, with the white space at both ends removed, is \<^verbatim>\<open>High\<close>, Medium
  exactly when the trimmed text is \<^verbatim>\<open>Medium\<close>, and Low for every other successful
  response, a response without text included. When the model call fails it returns
  Medium.
\<close>

theorem suggestPriority_by_trimmed_text:
  "(ai (PriorityPrompt taskText) = Inr response \<longrightarrow>
      (suggestPriority ai taskText = Inr HIGH \<longleftrightarrow> map_option trim response = Some (js ''High''))
    \<and> (suggestPriority ai taskText = Inr MEDIUM \<longleftrightarrow> map_option trim response = Some (js ''Medium''))
    \<and> (suggestPriority ai taskText = Inr LOW \<longleftrightarrow>
         map_option trim response \<noteq> Some (js ''High'') \<and> map_option trim response \<noteq> Some (js ''Medium'')))
   \<and> (ai (PriorityPrompt taskText) = Inl e \<longrightarrow> suggestPriority ai taskText = Inr MEDIUM)"
  using js_High_neq_Medium by (auto simp add: suggestPriority_def try_catch_def Let_def)

theorem suggestPriority_by_trimmed_text_witness:
  "suggestPriority ai_sample (js ''Pay rent'') = Inr HIGH
   \<and> suggestPriority ai_failing (js ''Pay rent'') = Inr MEDIUM"
  using suggestPriority_by_trimmed_text [of ai_sample "js ''Pay rent''" "Some (js ''High'' @ [0x000A])" RequestFailed]
        suggestPriority_by_trimmed_text [of ai_failing "js ''Pay rent''" None RequestFailed]
  by (simp add: trim_High_newline ai_failing_def)

text \<open>
  C4. None of the three functions lets an exception out: each returns a value for
  every model and every \<open>JSON_parse\<close>. When the model call fails, \<open>breakDownTask\<close>
  returns the empty array, \<open>suggestPriority\<close> returns Medium and \<open>getMotivation\<close>
  returns \<^verbatim>\<open>You got this! - Pranav AI\<close>. When the call succeeds, \<open>getMotivation\<close>
  returns \<^verbatim>\<open>Keep crushing it! - Pranav AI\<close> for a missing or empty text and the text
  itself otherwise.
\<close>

theorem ai_client_absorbs_failures:
  "(\<exists>v. breakDownTask ai JSON_parse taskText = Inr v)
   \<and> (\<exists>p. suggestPriority ai taskText = Inr p)
   \<and> (\<exists>m. getMotivation ai pendingCount = Inr m)
   \<and> (ai (BreakDownPrompt taskText) = Inl e1 \<longrightarrow>
        breakDownTask ai JSON_parse taskText = Inr (JArr []))
   \<and> (ai (PriorityPrompt taskText) = Inl e2 \<longrightarrow> suggestPriority ai taskText = Inr MEDIUM)
   \<and> (ai (MotivationPrompt pendingCount) = Inl e3 \<longrightarrow>
        getMotivation ai pendingCount = Inr (js ''You got this! - Pranav AI''))
   \<and> (ai (MotivationPrompt pendingCount) = Inr None \<or> ai (MotivationPrompt pendingCount) = Inr (Some []) \<longrightarrow>
        getMotivation ai pendingCount = Inr (js ''Keep crushing it! - Pranav AI''))
   \<and> (ai (MotivationPrompt pendingCount) = Inr (Some t) \<and> t \<noteq> [] \<longrightarrow>
        getMotivation ai pendingCount = Inr t)"
proof -
  have b: "\<exists>v. breakDownTask ai JSON_parse taskText = Inr v"
    by (simp add: breakDownTask_def try_catch_def split: sum.split option.split)
  have p: "\<exists>p. suggestPriority ai taskText = Inr p"
    by (simp add: suggestPriority_def try_catch_def Let_def split: sum.split)
  have m: "\<exists>m. getMotivation ai pendingCount = Inr m"
    by (simp add: getMotivation_def try_catch_def split: sum.split option.split)
  have rest: "(ai (BreakDownPrompt taskText) = Inl e1 \<longrightarrow>
        breakDownTask ai JSON_parse taskText = Inr (JArr []))
   \<and> (ai (PriorityPrompt taskText) = Inl e2 \<longrightarrow> suggestPriority ai taskText = Inr MEDIUM)
   \<and> (ai (MotivationPrompt pendingCount) = Inl e3 \<longrightarrow>
        getMotivation ai pendingCount = Inr (js ''You got this! - Pranav AI''))
   \<and> (ai (MotivationPrompt pendingCount) = Inr None \<or> ai (MotivationPrompt pendingCount) = Inr (Some []) \<longrightarrow>
        getMotivation ai pendingCount = Inr (js ''Keep crushing it! - Pranav AI''))
   \<and> (ai (MotivationPrompt pendingCount) = Inr (Some t) \<and> t \<noteq> [] \<longrightarrow>
        getMotivation ai pendingCount = Inr t)"
    by (auto simp add: breakDownTask_def suggestPriority_def getMotivation_def try_catch_def)
  from b p m rest show ?thesis by blast
qed

theorem ai_client_absorbs_failures_witness:
  "breakDownTask ai_failing JSON_parse_on_samples (js ''Plan trip'') = Inr (JArr [])
   \<and> suggestPriority ai_failing (js ''Plan trip'') = Inr MEDIUM
   \<and> getMotivation ai_failing 3 = Inr (js ''You got this! - Pranav AI'')
   \<and> getMotivation ai_sample 3 = Inr (js ''Keep crushing it! - Pranav AI'')
   \<and> getMotivation ai_quote 3 = Inr (js ''Onward! - Pranav AI'')"
  using ai_client_absorbs_failures [of ai_failing JSON_parse_on_samples "js ''Plan trip''" 3
          RequestFailed RequestFailed RequestFailed "[]"]
        ai_client_absorbs_failures [of ai_sample JSON_parse_on_samples "js ''Plan trip''" 3
          RequestFailed RequestFailed RequestFailed "[]"]
        ai_client_absorbs_failures [of ai_quote JSON_parse_on_samples "js ''Plan trip''" 3
          RequestFailed RequestFailed RequestFailed "js ''Onward! - Pranav AI''"]
  by (simp add: ai_failing_def ai_quote_def js_Nil_iff)

text \<open>
  C9, as stated, fails: for a successful response whose text is a JSON array of two
  strings, \<open>breakDownTask\<close> returns that array, of length 2.
\<close>

theorem breakDownTask_counterexample:
  \<open>breakDownTask ai_sample JSON_parse_on_samples (js ''Plan trip'') =
     Inr (string_array [js ''Book flight'', js ''Book hotel''])
   \<and> length [js ''Book flight'', js ''Book hotel''] = 2\<close>
  by (simp add: breakDownTask_def try_catch_def JSON_parse_on_samples_def string_array_def js_Nil_iff)

text \<open>
  C9 (amended). For every task text and every successful model response with a
  non-empty text, \<open>breakDownTask\<close> returns what \<^verbatim>\<open>JSON.parse\<close> makes of the text,
  unchanged and of any length; it returns the empty array when \<^verbatim>\<open>JSON.parse\<close>
  throws and when the text is missing or empty. The range of 3 to 5 subtasks is asked
  of the model in the prompt and not checked on the answer.
\<close>

theorem breakDownTask_returns_parsed:
  "(ai (BreakDownPrompt taskText) = Inr (Some t) \<and> t \<noteq> [] \<and> JSON_parse t = Inr v \<longrightarrow>
      breakDownTask ai JSON_parse taskText = Inr v)
   \<and> (ai (BreakDownPrompt taskText) = Inr (Some t) \<and> JSON_parse t = Inl e \<longrightarrow>
      breakDownTask ai JSON_parse taskText = Inr (JArr []))
   \<and> (ai (BreakDownPrompt taskText) = Inr None \<or> ai (BreakDownPrompt taskText) = Inr (Some []) \<longrightarrow>
      breakDownTask ai JSON_parse taskText = Inr (JArr []))"
  by (auto simp add: breakDownTask_def try_catch_def)

theorem breakDownTask_returns_parsed_witness:
  \<open>breakDownTask ai_sample JSON_parse_on_samples (js ''Plan trip'') =
     Inr (string_array [js ''Book flight'', js ''Book hotel''])\<close>
  using breakDownTask_returns_parsed [of ai_sample "js ''Plan trip''"
      \<open>js ''["Book flight","Book hotel"]''\<close> JSON_parse_on_samples
      "string_array [js ''Book flight'', js ''Book hotel'']" SyntaxError]
  by (simp add: JSON_parse_on_samples_def string_array_def js_Nil_iff)

section \<open>Loading the stored tasks\<close>

text \<open>
  What \<open>loadTasks\<close> does absorb: it lets no exception out, and it returns the empty
  list when the stored content is missing, is the empty string, or makes
  \<^verbatim>\<open>JSON.parse\<close> throw.
\<close>

lemma loadTasks_absorbs_parse_failure:
  "(\<exists>v. loadTasks JSON_parse localStorage = Inr v)
   \<and> (localStorage (js ''pranav_tasks'') = None \<or> localStorage (js ''pranav_tasks'') = Some [] \<longrightarrow>
        loadTasks JSON_parse localStorage = Inr (JArr []))
   \<and> (localStorage (js ''pranav_tasks'') = Some saved \<and> JSON_parse saved = Inl e \<longrightarrow>
        loadTasks JSON_parse localStorage = Inr (JArr []))"
proof -
  have total: "\<exists>v. loadTasks JSON_parse localStorage = Inr v"
    by (simp add: loadTasks_def try_catch_def split: option.split sum.split)
  have rest: "(localStorage (js ''pranav_tasks'') = None \<or> localStorage (js ''pranav_tasks'') = Some [] \<longrightarrow>
        loadTasks JSON_parse localStorage = Inr (JArr []))
   \<and> (localStorage (js ''pranav_tasks'') = Some saved \<and> JSON_parse saved = Inl e \<longrightarrow>
        loadTasks JSON_parse localStorage = Inr (JArr []))"
    by (auto simp add: loadTasks_def try_catch_def)
  from total rest show ?thesis by blast
qed

lemma loadTasks_absorbs_parse_failure_example:
  "loadTasks JSON_parse_on_samples Map.empty = Inr (JArr [])
   \<and> loadTasks JSON_parse_on_samples (storage_sample (js ''not json'')) = Inr (JArr [])"
proof -
  have bad: "JSON_parse_on_samples (js ''not json'') = Inl SyntaxError"
    by (simp add: JSON_parse_on_samples_def js_def)
  have a: "loadTasks JSON_parse_on_samples Map.empty = Inr (JArr [])"
    using loadTasks_absorbs_parse_failure [of JSON_parse_on_samples Map.empty "[]" SyntaxError]
    by simp
  have b: "loadTasks JSON_parse_on_samples (storage_sample (js ''not json'')) = Inr (JArr [])"
    using loadTasks_absorbs_parse_failure [of JSON_parse_on_samples
        "storage_sample (js ''not json'')" "js ''not json''" SyntaxError] bad
    by (simp add: storage_sample_def)
  from a b show ?thesis by blast
qed

text \<open>
  C5. The claim: if the stored content is missing, or is present but invalid (fails to
  parse as a task list), the startup task list is empty and no exception surfaces.
  The code misses one case of it. The stored text \<^verbatim>\<open>{}\<close> is present, is valid JSON
  and is not a task list; \<open>loadTasks\<close> has the fallback to the empty list for every
  other kind of bad content, and here it returns the empty object, under its declared
  type \<^verbatim>\<open>Task[]\<close>, instead of the empty list.
\<close>

theorem loadTasks_object_not_absorbed:
  "loadTasks JSON_parse_on_samples (storage_sample (js ''{}'')) = Inr (JObj [])
   \<and> loadTasks JSON_parse_on_samples (storage_sample (js ''{}'')) \<noteq> Inr (JArr [])"
  by (simp add: loadTasks_def storage_sample_def try_catch_def JSON_parse_on_samples_def js_def)

section \<open>Adding a task\<close>


text \<open>
  C2. For every text that is not blank after trimming, \<open>addTask\<close> puts exactly one new
  task in front of the list: it is not completed, its text is the trimmed input and its
  priority is the override, or Low when there is none. For a text that is empty or all
  white space, \<open>addTask\<close> leaves the state, and so the list, unchanged.
\<close>

theorem addTask_prepends_one:
  "(trim txt \<noteq> [] \<longrightarrow>
      tasks (addTask randomUUID now txt priorityOverride s) =
        \<lparr>id' = randomUUID, text' = trim txt, completed = False,
         priority = (case priorityOverride of None \<Rightarrow> LOW | Some q \<Rightarrow> q),
         createdAt = now\<rparr> # tasks s
      \<and> length (tasks (addTask randomUUID now txt priorityOverride s)) = length (tasks s) + 1)
   \<and> (trim txt = [] \<longrightarrow> addTask randomUUID now txt priorityOverride s = s)"
  by (simp add: addTask_def Let_def)

theorem addTask_prepends_one_witness:
  "trim (js '' Buy milk '') \<noteq> []
   \<and> tasks (addTask (js ''u1'') 1000 (js '' Buy milk '') None (initialState [])) =
       [\<lparr>id' = js ''u1'', text' = js ''Buy milk'', completed = False, priority = LOW,
         createdAt = 1000\<rparr>]
   \<and> trim (js ''   '') = []
   \<and> addTask (js ''u1'') 1000 (js ''   '') None (initialState []) = initialState []"
proof -
  have nonblank: "trim (js '' Buy milk '') = js ''Buy milk''"
    by (simp add: trim_def js_def isWhiteSpace_def)
  have blank: "trim (js ''   '') = []"
    by (simp add: trim_def js_def isWhiteSpace_def)
  have a: "tasks (addTask (js ''u1'') 1000 (js '' Buy milk '') None (initialState [])) =
       [\<lparr>id' = js ''u1'', text' = js ''Buy milk'', completed = False, priority = LOW,
         createdAt = 1000\<rparr>]"
    using addTask_prepends_one [of "js '' Buy milk ''" "js ''u1''" 1000 None "initialState []"]
    by (simp add: nonblank initialState_def js_Nil_iff)
  have b: "addTask (js ''u1'') 1000 (js ''   '') None (initialState []) = initialState []"
    using addTask_prepends_one [of "js ''   ''" "js ''u1''" 1000 None "initialState []"] blank
    by simp
  from a b blank nonblank show ?thesis by (simp add: js_Nil_iff)
qed

section \<open>Smart add\<close>

lemma new_tasks_text:
  "map text' (map (\<lambda>(k, st). \<lparr>id' = u k, text' = st, completed = c, priority = p, createdAt = n k\<rparr>) (enumerate m xs)) = xs"
  by (induction xs arbitrary: m) simp_all

lemma new_tasks_id:
  "map id' (map (\<lambda>(k, st). \<lparr>id' = u k, text' = st, completed = c, priority = p, createdAt = n k\<rparr>) (enumerate m xs)) = map u [m..<m + length xs]"
  by (induction xs arbitrary: m) (simp_all add: upt_rec)

lemma new_tasks_fields:
  "t \<in> set (map (\<lambda>(k, st). \<lparr>id' = u k, text' = st, completed = c, priority = p, createdAt = n k\<rparr>) (enumerate m xs))
     \<Longrightarrow> priority t = p \<and> completed t = c"
  by (induction xs arbitrary: m) auto

text \<open>
  C1, as stated, fails in three places. For a blank input the handler returns at once
  and adds nothing, whatever the two AI results are. In the fallback the task carries
  the trimmed text, not the text as typed. And a subtask string equal to the input
  text yields a task that carries the input text.
\<close>

theorem smartAdd_counterexample:
  "tasks (smartAdd uuid_sample now_sample (Inr HIGH) (Inr [js ''Book flight'', js ''Book hotel''])
            (js ''   '') (initialState [])) = []
   \<and> map text' (tasks (smartAdd uuid_sample now_sample (Inr HIGH) (Inr [])
            (js '' Plan trip '') (initialState []))) = [js ''Plan trip'']
   \<and> js ''Plan trip'' \<noteq> js '' Plan trip ''
   \<and> map text' (tasks (smartAdd uuid_sample now_sample (Inr HIGH) (Inr [js ''Plan trip'', js ''Pack''])
            (js ''Plan trip'') (initialState []))) = [js ''Plan trip'', js ''Pack'']"
proof -
  have a: "tasks (smartAdd uuid_sample now_sample (Inr HIGH) (Inr [js ''Book flight'', js ''Book hotel''])
            (js ''   '') (initialState [])) = []"
    by (simp add: smartAdd_def handleSmartAdd_def trim_blank3 initialState_def)
  have b: "map text' (tasks (smartAdd uuid_sample now_sample (Inr HIGH) (Inr [])
            (js '' Plan trip '') (initialState []))) = [js ''Plan trip'']"
    by (simp add: smartAdd_def handleSmartAdd_def addTask_def trim_Plan_trip_padded initialState_def js_Nil_iff)
  have c: "js ''Plan trip'' \<noteq> js '' Plan trip ''"
    by (simp add: js_def)
  have d: "map text' (tasks (smartAdd uuid_sample now_sample (Inr HIGH) (Inr [js ''Plan trip'', js ''Pack''])
            (js ''Plan trip'') (initialState []))) = [js ''Plan trip'', js ''Pack'']"
    by (simp add: smartAdd_def handleSmartAdd_def trim_Plan_trip initialState_def js_Nil_iff)
  from a b c d show ?thesis by blast
qed

text \<open>
  C1 (amended). For every input text that is not blank after trimming: if
  \<open>suggestPriority\<close> returns \<open>p\<close> and \<open>breakDownTask\<close> returns a non-empty sequence of
  \<open>n\<close> strings, \<open>smartAdd\<close> puts exactly \<open>n\<close> new tasks in front of the list, one for
  each subtask string in sequence order, each with priority \<open>p\<close> and not completed,
  and no further task for the input text; if \<open>breakDownTask\<close> returns the empty
  sequence, \<open>smartAdd\<close> adds exactly one task, with the trimmed input text and priority
  \<open>p\<close>. For a blank input text \<open>smartAdd\<close> leaves the list unchanged.
\<close>

theorem smartAdd_amended:
  "(trim txt \<noteq> [] \<and> subtasks \<noteq> [] \<longrightarrow>
      tasks (smartAdd randomUUID now (Inr p) (Inr subtasks) txt s) =
        map (\<lambda>(k, st). \<lparr>id' = randomUUID k, text' = st, completed = False, priority = p,
                         createdAt = now k\<rparr>) (enumerate 0 subtasks) @ tasks s
      \<and> length (tasks (smartAdd randomUUID now (Inr p) (Inr subtasks) txt s)) =
          length subtasks + length (tasks s)
      \<and> map text' (take (length subtasks) (tasks (smartAdd randomUUID now (Inr p) (Inr subtasks) txt s))) =
          subtasks
      \<and> (\<forall>t \<in> set (take (length subtasks) (tasks (smartAdd randomUUID now (Inr p) (Inr subtasks) txt s))).
            priority t = p \<and> \<not> completed t)
      \<and> drop (length subtasks) (tasks (smartAdd randomUUID now (Inr p) (Inr subtasks) txt s)) = tasks s)
   \<and> (trim txt \<noteq> [] \<longrightarrow>
        tasks (smartAdd randomUUID now (Inr p) (Inr []) txt s) =
          \<lparr>id' = randomUUID 0, text' = trim txt, completed = False, priority = p,
           createdAt = now 0\<rparr> # tasks s)
   \<and> (trim txt = [] \<longrightarrow> tasks (smartAdd randomUUID now suggested broken txt s) = tasks s)"
proof -
  let ?new = "map (\<lambda>(k, st). \<lparr>id' = randomUUID k, text' = st, completed = False, priority = p,
                         createdAt = now k\<rparr>) (enumerate 0 subtasks)"
  have eq: "tasks (smartAdd randomUUID now (Inr p) (Inr subtasks) txt s) = ?new @ tasks s"
    if "trim txt \<noteq> []" "subtasks \<noteq> []"
    using that by (simp add: smartAdd_def handleSmartAdd_def)
  have len: "length ?new = length subtasks" by simp
  have txts: "map text' ?new = subtasks" by (rule new_tasks_text)
  have flds: "\<forall>t \<in> set ?new. priority t = p \<and> \<not> completed t"
    using new_tasks_fields [of _ randomUUID False p now 0 subtasks] by blast
  have fallback: "tasks (smartAdd randomUUID now (Inr p) (Inr []) txt s) =
          \<lparr>id' = randomUUID 0, text' = trim txt, completed = False, priority = p,
           createdAt = now 0\<rparr> # tasks s" if "trim txt \<noteq> []"
    using that by (simp add: smartAdd_def handleSmartAdd_def addTask_def)
  have blank: "tasks (smartAdd randomUUID now suggested broken txt s) = tasks s" if "trim txt = []"
    using that by (simp add: smartAdd_def handleSmartAdd_def)
  show ?thesis
    using eq len txts flds fallback blank by simp
qed

theorem smartAdd_amended_witness:
  "tasks (smartAdd uuid_sample now_sample (Inr HIGH) (Inr [js ''Book flight'', js ''Book hotel''])
            (js ''Plan trip'') (initialState [])) =
     [\<lparr>id' = js ''id0'', text' = js ''Book flight'', completed = False, priority = HIGH, createdAt = 1000\<rparr>,
      \<lparr>id' = js ''id1'', text' = js ''Book hotel'', completed = False, priority = HIGH, createdAt = 1001\<rparr>]
   \<and> tasks (smartAdd uuid_sample now_sample (Inr MEDIUM) (Inr []) (js ''Plan trip'') (initialState [])) =
     [\<lparr>id' = js ''id0'', text' = js ''Plan trip'', completed = False, priority = MEDIUM, createdAt = 1000\<rparr>]
   \<and> tasks (smartAdd uuid_sample now_sample (Inr HIGH) (Inr [js ''Book flight'']) (js ''   '') (initialState [])) = []"
proof -
  have u0: "uuid_sample 0 = js ''id0''" and u1: "uuid_sample (Suc 0) = js ''id1''"
    by (simp_all add: uuid_sample_def js_def)
  have a: "tasks (smartAdd uuid_sample now_sample (Inr HIGH) (Inr [js ''Book flight'', js ''Book hotel''])
            (js ''Plan trip'') (initialState [])) =
     [\<lparr>id' = js ''id0'', text' = js ''Book flight'', completed = False, priority = HIGH, createdAt = 1000\<rparr>,
      \<lparr>id' = js ''id1'', text' = js ''Book hotel'', completed = False, priority = HIGH, createdAt = 1001\<rparr>]"
    using smartAdd_amended [of "js ''Plan trip''" "[js ''Book flight'', js ''Book hotel'']"
        uuid_sample now_sample HIGH "initialState []"]
    by (simp add: trim_Plan_trip js_Nil_iff u0 u1 now_sample_def initialState_def)
  have b: "tasks (smartAdd uuid_sample now_sample (Inr MEDIUM) (Inr []) (js ''Plan trip'') (initialState [])) =
     [\<lparr>id' = js ''id0'', text' = js ''Plan trip'', completed = False, priority = MEDIUM, createdAt = 1000\<rparr>]"
    using smartAdd_amended [of "js ''Plan trip''" "[]" uuid_sample now_sample MEDIUM "initialState []"]
    by (simp add: trim_Plan_trip js_Nil_iff u0 now_sample_def initialState_def)
  have c: "tasks (smartAdd uuid_sample now_sample (Inr HIGH) (Inr [js ''Book flight'']) (js ''   '') (initialState [])) = []"
    using smartAdd_amended [of "js ''   ''" "[]" uuid_sample now_sample HIGH "initialState []"
        "Inr HIGH" "Inr [js ''Book flight'']"]
    by (simp add: trim_blank3 initialState_def)
  from a b c show ?thesis by blast
qed

section \<open>Deleting a task\<close>

lemma filter_out_one:
  "distinct (map f xs) \<Longrightarrow> i \<in> set (map f xs) \<Longrightarrow> length (filter (\<lambda>t. f t \<noteq> i) xs) + 1 = length xs"
proof (induction xs)
  case Nil
  then show ?case by simp
next
  case (Cons x xs)
  show ?case
  proof (cases "f x = i")
    case True
    with Cons.prems have "i \<notin> f ` set xs" by simp
    then have "filter (\<lambda>t. f t \<noteq> i) xs = xs" by (auto simp add: filter_id_conv)
    with True show ?thesis by simp
  next
    case False
    with Cons show ?thesis by simp
  qed
qed

lemma filter_absent:
  "i \<notin> set (map f xs) \<Longrightarrow> filter (\<lambda>t. f t \<noteq> i) xs = xs"
  by (auto simp add: filter_id_conv)

text \<open>
  C8, as stated, fails: on a list in which two tasks carry the id \<^verbatim>\<open>a\<close>, deleting
  \<^verbatim>\<open>a\<close> removes both.
\<close>

theorem deleteTask_counterexample:
  "length (tasks (initialState tasks_duplicate_id)) = 2
   \<and> length (tasks (deleteTask (js ''a'') (initialState tasks_duplicate_id))) = 0"
  by (simp add: deleteTask_def initialState_def tasks_duplicate_id_def task_sample_def)

text \<open>
  C8 (amended). For every task list whose ids are pairwise distinct, \<open>deleteTask\<close>
  removes exactly one task when a task with that id is present. For every task list,
  it removes the tasks with that id and no other, keeps the remaining tasks in their
  order, leaves the state unchanged when no task has that id, and is idempotent.
\<close>

theorem deleteTask_amended:
  "(distinct (map id' (tasks s)) \<and> i \<in> set (map id' (tasks s)) \<longrightarrow>
      length (tasks (deleteTask i s)) + 1 = length (tasks s))
   \<and> subseq (tasks (deleteTask i s)) (tasks s)
   \<and> set (tasks (deleteTask i s)) = {t \<in> set (tasks s). id' t \<noteq> i}
   \<and> (i \<notin> set (map id' (tasks s)) \<longrightarrow> deleteTask i s = s)
   \<and> deleteTask i (deleteTask i s) = deleteTask i s"
proof -
  have one: "length (tasks (deleteTask i s)) + 1 = length (tasks s)"
    if "distinct (map id' (tasks s))" "i \<in> set (map id' (tasks s))"
    using filter_out_one [OF that] by (simp add: deleteTask_def)
  have sub: "subseq (tasks (deleteTask i s)) (tasks s)"
    by (simp add: deleteTask_def)
  have rest: "set (tasks (deleteTask i s)) = {t \<in> set (tasks s). id' t \<noteq> i}"
    by (simp add: deleteTask_def)
  have absent: "deleteTask i s = s" if "i \<notin> set (map id' (tasks s))"
    using filter_absent [OF that] by (simp add: deleteTask_def)
  have idem: "deleteTask i (deleteTask i s) = deleteTask i s"
    by (simp add: deleteTask_def)
  from one sub rest absent idem show ?thesis by blast
qed

theorem deleteTask_amended_witness:
  "distinct (map id' (tasks (initialState tasks_sample)))
   \<and> js ''b'' \<in> set (map id' (tasks (initialState tasks_sample)))
   \<and> length (tasks (deleteTask (js ''b'') (initialState tasks_sample))) + 1 = 3
   \<and> js ''z'' \<notin> set (map id' (tasks (initialState tasks_sample)))
   \<and> deleteTask (js ''z'') (initialState tasks_sample) = initialState tasks_sample"
proof -
  have ids: "map id' (tasks (initialState tasks_sample)) = [js ''a'', js ''b'', js ''c'']"
    by (simp add: initialState_def tasks_sample_def task_sample_def)
  have d: "distinct [js ''a'', js ''b'', js ''c'']" and z: "js ''z'' \<notin> set [js ''a'', js ''b'', js ''c'']"
    by (simp_all add: js_def)
  have len: "length (tasks (initialState tasks_sample)) = 3"
    by (simp add: initialState_def tasks_sample_def)
  from deleteTask_amended [of "initialState tasks_sample" "js ''b''"]
  have "length (tasks (deleteTask (js ''b'') (initialState tasks_sample))) + 1 = 3"
    using ids d len by simp
  moreover from deleteTask_amended [of "initialState tasks_sample" "js ''z''"]
  have "deleteTask (js ''z'') (initialState tasks_sample) = initialState tasks_sample"
    using ids z by simp
  ultimately show ?thesis using ids d z by simp
qed

section \<open>The filter tabs\<close>

text \<open>
  C7. For every task list, the tasks shown under the tabs \<^verbatim>\<open>active\<close> and
  \<^verbatim>\<open>completed\<close> are disjoint and together are exactly the tasks shown under
  \<^verbatim>\<open>all\<close>, which are all the tasks of the list, unchanged. The filter reads the list
  and returns a new one; selecting a tab leaves the task list of the state as it is.
\<close>

theorem filteredTasks_partition:
  "filteredTasks (s\<lparr>activeTab := TabAll\<rparr>) = tasks s
   \<and> set (filteredTasks (s\<lparr>activeTab := TabActive\<rparr>)) \<inter> set (filteredTasks (s\<lparr>activeTab := TabCompleted\<rparr>)) = {}
   \<and> mset (filteredTasks (s\<lparr>activeTab := TabActive\<rparr>)) + mset (filteredTasks (s\<lparr>activeTab := TabCompleted\<rparr>))
       = mset (filteredTasks (s\<lparr>activeTab := TabAll\<rparr>))
   \<and> tasks (s\<lparr>activeTab := tab\<rparr>) = tasks s"
proof -
  have all: "filteredTasks (s\<lparr>activeTab := TabAll\<rparr>) = tasks s"
    by (simp add: filteredTasks_def)
  have disj: "set (filteredTasks (s\<lparr>activeTab := TabActive\<rparr>)) \<inter> set (filteredTasks (s\<lparr>activeTab := TabCompleted\<rparr>)) = {}"
    by (auto simp add: filteredTasks_def)
  have "mset (filter (\<lambda>t. \<not> completed t) xs) + mset (filter completed xs) = mset xs" for xs :: "Task list"
    by (induction xs) simp_all
  then have cover: "mset (filteredTasks (s\<lparr>activeTab := TabActive\<rparr>)) + mset (filteredTasks (s\<lparr>activeTab := TabCompleted\<rparr>))
       = mset (filteredTasks (s\<lparr>activeTab := TabAll\<rparr>))"
    by (simp add: filteredTasks_def)
  from all disj cover show ?thesis by simp
qed

section \<open>The statistics\<close>

lemma incomplete_by_priority:
  "length (filter (\<lambda>t. priority t = HIGH \<and> \<not> completed t) xs)
     + (length (filter (\<lambda>t. priority t = MEDIUM \<and> \<not> completed t) xs)
        + length (filter (\<lambda>t. priority t = LOW \<and> \<not> completed t) xs))
   = length (filter (\<lambda>t. \<not> completed t) xs)"
proof (induction xs)
  case Nil
  show ?case by simp
next
  case (Cons t xs)
  then show ?case by (cases "priority t") simp_all
qed

lemma positive_count_iff:
  "0 < length (filter P xs) \<longleftrightarrow> (\<exists>t \<in> set xs. P t)"
  by (induction xs) auto

text \<open>
  C6. For every task list, \<open>statsData\<close> has no entry with value 0, has at most one
  entry for each priority, has an entry for a priority exactly when some task of that
  priority is not completed, gives each entry the number of such tasks, and the values
  add up to the number of tasks that are not completed.
\<close>

theorem statsData_counts:
  "(\<forall>d \<in> set (statsData s). value' d \<noteq> 0)
   \<and> distinct (map name (statsData s))
   \<and> (\<forall>p. Priority_value p \<in> set (map name (statsData s)) \<longleftrightarrow>
            (\<exists>t \<in> set (tasks s). priority t = p \<and> \<not> completed t))
   \<and> (\<forall>d \<in> set (statsData s). \<exists>p. name d = Priority_value p
            \<and> value' d = length (filter (\<lambda>t. priority t = p \<and> \<not> completed t) (tasks s)))
   \<and> sum_list (map value' (statsData s)) = length (filter (\<lambda>t. \<not> completed t) (tasks s))"
proof -
  let ?h = "length (filter (\<lambda>t. priority t = HIGH \<and> \<not> completed t) (tasks s))"
  let ?m = "length (filter (\<lambda>t. priority t = MEDIUM \<and> \<not> completed t) (tasks s))"
  let ?l = "length (filter (\<lambda>t. priority t = LOW \<and> \<not> completed t) (tasks s))"
  have nonzero: "\<forall>d \<in> set (statsData s). value' d \<noteq> 0"
    by (simp add: statsData_def Let_def)
  have names: "distinct (map name (statsData s))"
    using priority_labels_distinct by (simp add: statsData_def Let_def)
  have present: "Priority_value p \<in> set (map name (statsData s)) \<longleftrightarrow>
            (\<exists>t \<in> set (tasks s). priority t = p \<and> \<not> completed t)" for p
    using priority_labels_distinct
      positive_count_iff [of "\<lambda>t. priority t = HIGH \<and> \<not> completed t" "tasks s"]
      positive_count_iff [of "\<lambda>t. priority t = MEDIUM \<and> \<not> completed t" "tasks s"]
      positive_count_iff [of "\<lambda>t. priority t = LOW \<and> \<not> completed t" "tasks s"]
    by (cases p) (auto simp add: statsData_def Let_def)
  have entry: "\<exists>p. name d = Priority_value p
            \<and> value' d = length (filter (\<lambda>t. priority t = p \<and> \<not> completed t) (tasks s))"
    if "d \<in> set (statsData s)" for d
  proof -
    from that have "d = \<lparr>name = js ''High'', value' = ?h\<rparr> \<or> d = \<lparr>name = js ''Medium'', value' = ?m\<rparr>
        \<or> d = \<lparr>name = js ''Low'', value' = ?l\<rparr>"
      by (auto simp add: statsData_def Let_def split: if_splits)
    then show ?thesis
    proof (elim disjE)
      assume "d = \<lparr>name = js ''High'', value' = ?h\<rparr>"
      then have "name d = Priority_value HIGH \<and> value' d = ?h" by simp
      then show ?thesis by blast
    next
      assume "d = \<lparr>name = js ''Medium'', value' = ?m\<rparr>"
      then have "name d = Priority_value MEDIUM \<and> value' d = ?m" by simp
      then show ?thesis by blast
    next
      assume "d = \<lparr>name = js ''Low'', value' = ?l\<rparr>"
      then have "name d = Priority_value LOW \<and> value' d = ?l" by simp
      then show ?thesis by blast
    qed
  qed
  have "sum_list (map value' (statsData s)) = ?h + (?m + ?l)"
    by (simp add: statsData_def Let_def)
  then have total: "sum_list (map value' (statsData s)) = length (filter (\<lambda>t. \<not> completed t) (tasks s))"
    by (simp only: incomplete_by_priority)
  from nonzero names present entry total show ?thesis by blast
qed

theorem statsData_counts_witness:
  "statsData (initialState tasks_sample) = [\<lparr>name = js ''High'', value' = 2\<rparr>]
   \<and> sum_list (map value' (statsData (initialState tasks_sample))) = 2
   \<and> length (filter (\<lambda>t. \<not> completed t) (tasks (initialState tasks_sample))) = 2"
proof -
  have v: "statsData (initialState tasks_sample) = [\<lparr>name = js ''High'', value' = 2\<rparr>]"
    by (simp add: statsData_def Let_def initialState_def tasks_sample_def task_sample_def)
  have "sum_list (map value' (statsData (initialState tasks_sample)))
          = length (filter (\<lambda>t. \<not> completed t) (tasks (initialState tasks_sample)))"
    using statsData_counts [of "initialState tasks_sample"] by blast
  with v show ?thesis by simp
qed

section \<open>Reachable states\<close>

lemma toggle_map_ids:
  "map id' (map (\<lambda>t. if id' t = i then t\<lparr>completed := \<not> completed t\<rparr> else t) xs) = map id' xs"
  by (induction xs) simp_all

lemma step_ids:
  "\<exists>kept. map id' (tasks (step e s)) = generated e @ kept \<and> subseq kept (map id' (tasks s))"
proof (cases e)
  case (Add u n tx ov)
  then show ?thesis by (simp add: addTask_def Let_def)
next
  case (SmartAdd u n sp bd tx)
  show ?thesis
  proof (cases "trim tx = []")
    case True
    with SmartAdd show ?thesis by (simp add: smartAdd_def handleSmartAdd_def)
  next
    case False
    with SmartAdd show ?thesis
      using new_tasks_id [of u False _ n 0]
      by (simp add: smartAdd_def handleSmartAdd_def addTask_def Let_def split: sum.split)
  qed
next
  case (Toggle i)
  from Toggle show ?thesis by (simp add: toggleTask_def toggle_map_ids del: map_map)
next
  case (Delete i)
  have "subseq (map id' (filter (\<lambda>t. id' t \<noteq> i) xs)) (map id' xs)" for xs
    by (rule subseq_map) simp
  with Delete show ?thesis by (simp add: deleteTask_def)
qed

lemma subseq_subset: "subseq xs ys \<Longrightarrow> set xs \<subseteq> set ys"
  by (induction rule: list_emb.induct) auto

lemma subseq_keeps_distinct: "subseq xs ys \<Longrightarrow> distinct ys \<Longrightarrow> distinct xs"
  using subseqs_distinctD [of xs ys] by simp

lemma step_distinct:
  assumes "distinct (map id' (tasks s))" "distinct (generated e)"
    "set (generated e) \<inter> set (map id' (tasks s)) = {}"
  shows "distinct (map id' (tasks (step e s)))"
proof -
  obtain kept where k: "map id' (tasks (step e s)) = generated e @ kept"
    and sub: "subseq kept (map id' (tasks s))"
    using step_ids by blast
  from sub assms(1) have "distinct kept" by (rule subseq_keeps_distinct)
  moreover from sub have "set kept \<subseteq> set (map id' (tasks s))" by (rule subseq_subset)
  ultimately show ?thesis using k assms(2,3) by auto
qed

lemma run_invariant:
  "distinct (map id' (tasks s)) \<Longrightarrow> fresh es s \<Longrightarrow>
     distinct (map id' (tasks (run es s)))
     \<and> subseq (map id' (tasks (run es s))) (inserted es @ map id' (tasks s))"
proof (induction es arbitrary: s)
  case Nil
  then show ?case by simp
next
  case (Cons e es)
  from Cons.prems have g: "distinct (generated e)"
    and d: "set (generated e) \<inter> set (map id' (tasks s)) = {}"
    and f: "fresh es (step e s)"
    by simp_all
  from Cons.prems(1) g d have ds: "distinct (map id' (tasks (step e s)))"
    by (rule step_distinct)
  from Cons.IH [OF ds f]
  have dr: "distinct (map id' (tasks (run es (step e s))))"
    and sr: "subseq (map id' (tasks (run es (step e s)))) (inserted es @ map id' (tasks (step e s)))"
    by simp_all
  obtain kept where k: "map id' (tasks (step e s)) = generated e @ kept"
    and sub: "subseq kept (map id' (tasks s))"
    using step_ids by blast
  from sub have "subseq (inserted es @ generated e @ kept) (inserted es @ generated e @ map id' (tasks s))"
    by (simp add: subseq_append')
  with sr k have "subseq (map id' (tasks (run es (step e s)))) (inserted (e # es) @ map id' (tasks s))"
    using subseq_order.order_trans by fastforce
  with dr show ?case by simp
qed

text \<open>
  C10, as stated, fails: from an initial list in which two different tasks carry the
  same id, the state after a toggle still has two different tasks with that id.
\<close>

theorem reachable_ids_counterexample:
  "fresh [Toggle (js ''a'')] (initialState tasks_duplicate_id)
   \<and> map id' (tasks (run [Toggle (js ''a'')] (initialState tasks_duplicate_id))) = [js ''a'', js ''a'']
   \<and> map text' (tasks (run [Toggle (js ''a'')] (initialState tasks_duplicate_id))) =
        [js ''Pay rent'', js ''Buy milk'']
   \<and> js ''Pay rent'' \<noteq> js ''Buy milk''"
proof -
  have "js ''Pay rent'' \<noteq> js ''Buy milk''" by (simp add: js_def)
  then show ?thesis
    by (simp add: toggleTask_def initialState_def tasks_duplicate_id_def task_sample_def)
qed

text \<open>
  C10 (amended). In every state reachable by add, smartAdd, toggle and delete from an
  initial task list whose ids are pairwise distinct, the ids of the list are pairwise
  distinct, assuming each generated id is fresh; the list is ordered by insertion with
  the newest first: its ids are a subsequence of the ids generated so far, those of the
  latest operation first, followed by the ids of the initial list; every operation puts
  the tasks it creates in front, a smartAdd batch in subtask order, and keeps the
  relative order of the tasks that remain, toggle and delete among them.
\<close>

theorem reachable_ids_and_order:
  "distinct (map id' (tasks s0)) \<and> fresh es s0 \<longrightarrow>
     distinct (map id' (tasks (run es s0)))
     \<and> subseq (map id' (tasks (run es s0))) (inserted es @ map id' (tasks s0))
     \<and> take (length (generated e)) (map id' (tasks (step e (run es s0)))) = generated e
     \<and> subseq (drop (length (generated e)) (map id' (tasks (step e (run es s0)))))
          (map id' (tasks (run es s0)))
     \<and> map id' (tasks (toggleTask i (run es s0))) = map id' (tasks (run es s0))
     \<and> subseq (tasks (deleteTask i (run es s0))) (tasks (run es s0))"
proof -
  obtain kept where k: "map id' (tasks (step e (run es s0))) = generated e @ kept"
    and sub: "subseq kept (map id' (tasks (run es s0)))"
    using step_ids by blast
  from k have front: "take (length (generated e)) (map id' (tasks (step e (run es s0)))) = generated e"
    by simp
  from k sub have rear: "subseq (drop (length (generated e)) (map id' (tasks (step e (run es s0)))))
          (map id' (tasks (run es s0)))"
    by simp
  have tog: "map id' (tasks (toggleTask i (run es s0))) = map id' (tasks (run es s0))"
    by (simp add: toggleTask_def toggle_map_ids del: map_map)
  have dele: "subseq (tasks (deleteTask i (run es s0))) (tasks (run es s0))"
    by (simp add: deleteTask_def)
  from run_invariant [of s0 es] front rear tog dele show ?thesis by blast
qed

theorem reachable_ids_and_order_witness:
  "distinct (map id' (tasks (initialState [])))
   \<and> fresh events_sample (initialState [])
   \<and> map id' (tasks (run events_sample (initialState []))) = [js ''id0'', js ''id1'']
   \<and> distinct (map id' (tasks (run events_sample (initialState []))))
   \<and> inserted events_sample = [js ''id0'', js ''id1'', js ''u1'']"
proof -
  have init: "distinct (map id' (tasks (initialState [])))"
    by (simp add: initialState_def)
  have fr: "fresh events_sample (initialState [])"
    by (simp add: events_sample_def initialState_def addTask_def smartAdd_def handleSmartAdd_def
        toggleTask_def deleteTask_def uuid_sample_def now_sample_def js_def trim_def
        isWhiteSpace_def Let_def)
  have ids: "map id' (tasks (run events_sample (initialState []))) = [js ''id0'', js ''id1'']"
    by (simp add: events_sample_def initialState_def addTask_def smartAdd_def handleSmartAdd_def
        toggleTask_def deleteTask_def uuid_sample_def now_sample_def js_def trim_def
        isWhiteSpace_def Let_def)
  have ins: "inserted events_sample = [js ''id0'', js ''id1'', js ''u1'']"
    by (simp add: events_sample_def uuid_sample_def js_def trim_def isWhiteSpace_def)
  from reachable_ids_and_order [of "initialState []" events_sample] init fr
  have "distinct (map id' (tasks (run events_sample (initialState []))))"
    by blast
  with init fr ids ins show ?thesis by blast
qed

end
